theory Spec2Isabelle
  imports Main "HOL-Library.Word"
begin

unbundle bit_operations_syntax

section \<open>JavaScript strings\<close>

text \<open>
  A JavaScript string is a sequence of UTF-16 code units. String literals of the source
  are written with \<open>js\<close>, which maps each character of an ASCII literal to its code unit.
\<close>

type_synonym jschar = "16 word"
type_synonym jsstring = "jschar list"

definition js :: "string \<Rightarrow> jsstring" where
  "js s = map of_char s"

text \<open>
  \<open>String.prototype.trim\<close> removes the WhiteSpace and LineTerminator code points of
  ECMAScript from both ends: TAB, LF, VT, FF, CR, SP, NBSP, the other space separators
  (U+1680, U+2000 to U+200A, U+202F, U+205F, U+3000), LS, PS and U+FEFF.
\<close>

definition isWhiteSpace :: "jschar \<Rightarrow> bool" where
  "isWhiteSpace c \<longleftrightarrow>
     c = 0x09 \<or> c = 0x0A \<or> c = 0x0B \<or> c = 0x0C \<or> c = 0x0D \<or> c = 0x20 \<or> c = 0xA0 \<or>
     c = 0x1680 \<or> (0x2000 \<le> c \<and> c \<le> 0x200A) \<or> c = 0x2028 \<or> c = 0x2029 \<or>
     c = 0x202F \<or> c = 0x205F \<or> c = 0x3000 \<or> c = 0xFEFF"

definition trim :: "jsstring \<Rightarrow> jsstring" where
  "trim s = rev (dropWhile isWhiteSpace (rev (dropWhile isWhiteSpace s)))"

definition startsWith :: "jsstring \<Rightarrow> jsstring \<Rightarrow> bool" where
  "startsWith s p \<longleftrightarrow> take (length p) s = p"

text \<open>
  \<open>s.replace(pat, rep)\<close> with a string pattern replaces the first occurrence of \<open>pat\<close>,
  wherever it is in \<open>s\<close>, and leaves \<open>s\<close> as it is when there is none. (The replacement
  patterns that start with a dollar sign play no role: the client replaces by the empty
  string.)
\<close>

fun replace :: "jsstring \<Rightarrow> jsstring \<Rightarrow> jsstring \<Rightarrow> jsstring" where
  "replace [] pat rep = (if pat = [] then rep else [])"
| "replace (c # cs) pat rep =
     (if startsWith (c # cs) pat then rep @ drop (length pat) (c # cs)
      else c # replace cs pat rep)"

text \<open>
  \<open>s.split(sep)\<close> for a separator of one code unit: the pieces between the separators,
  in order; there is always at least one piece, and the last one is what follows the last
  separator.
\<close>

fun cons_first :: "jschar \<Rightarrow> jsstring list \<Rightarrow> jsstring list" where
  "cons_first c [] = [[c]]"
| "cons_first c (piece # pieces) = (c # piece) # pieces"

fun split :: "jsstring \<Rightarrow> jschar \<Rightarrow> jsstring list" where
  "split [] sep = [[]]"
| "split (c # cs) sep =
     (if c = sep then [] # split cs sep else cons_first c (split cs sep))"

definition LF :: jschar where
  "LF = 0x0A"

section \<open>JavaScript values\<close>

text \<open>
  The values that reach the client at run time, where the TypeScript types are not
  checked: a context entry or a response body may be any value. Numbers are kept to the
  signed integers of 32 bits, which are numbers of JavaScript as they are and which
  it prints in plain decimal; an object is the list of its own properties.
\<close>

datatype jsval =
    JUndefined
  | JNull
  | JBool bool
  | JNum "32 word"
  | JStr jsstring
  | JArr "jsval list"
  | JObj "(jsstring \<times> jsval) list"

fun typeof :: "jsval \<Rightarrow> jsstring" where
  "typeof JUndefined = js ''undefined''"
| "typeof JNull = js ''object''"
| "typeof (JBool b) = js ''boolean''"
| "typeof (JNum n) = js ''number''"
| "typeof (JStr s) = js ''string''"
| "typeof (JArr vs) = js ''object''"
| "typeof (JObj ps) = js ''object''"

fun truthy :: "jsval \<Rightarrow> bool" where
  "truthy JUndefined = False"
| "truthy JNull = False"
| "truthy (JBool b) = b"
| "truthy (JNum n) = (n \<noteq> 0)"
| "truthy (JStr s) = (s \<noteq> [])"
| "truthy (JArr vs) = True"
| "truthy (JObj ps) = True"

text \<open>
  The property read \<open>v.k\<close> on a value that is neither \<open>null\<close> nor \<open>undefined\<close>, for the
  property names the client reads (\<open>role\<close>, \<open>content\<close>, \<open>error\<close>, \<open>message\<close>): none of them
  is inherited from a prototype, so only an object with such a property of its own has
  one. On \<open>null\<close> and \<open>undefined\<close> a property read throws a TypeError, which the callers
  below write out; \<open>optional_get\<close> is the read \<open>v?.k\<close>, which gives \<open>undefined\<close> there.
\<close>

fun get :: "jsval \<Rightarrow> jsstring \<Rightarrow> jsval" where
  "get (JObj ps) k = (case map_of ps k of Some v \<Rightarrow> v | None \<Rightarrow> JUndefined)"
| "get v k = JUndefined"

definition optional_get :: "jsval \<Rightarrow> jsstring \<Rightarrow> jsval" where
  "optional_get v k = (if v = JUndefined \<or> v = JNull then JUndefined else get v k)"


text \<open>
  The conversion to a string, \<open>String(v)\<close>; \<open>None\<close> stands for the TypeError it throws. A
  number is printed in decimal. An array is the join of its elements with commas, where
  \<open>null\<close> and \<open>undefined\<close> count as empty. An object has the methods \<open>toString\<close> and
  \<open>valueOf\<close> of \<open>Object.prototype\<close>, and is \<^verbatim>\<open>[object Object]\<close>, unless a property of its
  own named \<open>toString\<close> hides the first: that property is no function, \<open>valueOf\<close> gives
  no primitive value, and the conversion throws.
\<close>

function decimal :: "nat \<Rightarrow> jsstring" where
  "decimal n = (if n < 10 then [0x30 + of_nat n] else decimal (n div 10) @ [0x30 + of_nat (n mod 10)])"
  by pat_completeness auto
termination
  by (relation "measure id") auto

definition Number_toString :: "32 word \<Rightarrow> jsstring" where
  "Number_toString n =
     (if sint n < 0 then js ''-'' @ decimal (nat (- sint n)) else decimal (nat (sint n)))"

fun ToString :: "jsval \<Rightarrow> jsstring option"
  and join :: "jsval list \<Rightarrow> jsstring option" where
  "ToString JUndefined = Some (js ''undefined'')"
| "ToString JNull = Some (js ''null'')"
| "ToString (JBool b) = Some (if b then js ''true'' else js ''false'')"
| "ToString (JNum n) = Some (Number_toString n)"
| "ToString (JStr s) = Some s"
| "ToString (JArr vs) = join vs"
| "ToString (JObj ps) =
     (case map_of ps (js ''toString'') of
        None \<Rightarrow> Some (js ''[object Object]'')
      | Some v \<Rightarrow> None)"
| "join [] = Some []"
| "join (v # vs) =
     (case (if v = JUndefined \<or> v = JNull then Some [] else ToString v) of
        None \<Rightarrow> None
      | Some s \<Rightarrow>
          (if vs = [] then Some s
           else (case join vs of None \<Rightarrow> None | Some t \<Rightarrow> Some (s @ js '','' @ t))))"

section \<open>The error classes\<close>

text \<open>
  What the client's code throws: a plain \<open>Error\<close> with its message, the TypeError and the
  SyntaxError that the runtime raises (on a property read of \<open>null\<close>, in a conversion to
  a string, in \<open>JSON.parse\<close>), or an instance of \<open>OpenAIError\<close> or of a subclass
  (errors.ts), with the fields that the constructor sets. The class of an instance is
  read off the \<open>name\<close> field, which each constructor sets to the name of its class.
\<close>

record OpenAIError =
  name :: jsstring
  message :: jsstring
  statusCode :: "int option"
  data :: jsval

datatype exn = Error jsstring | TypeError | SyntaxError | ClientError OpenAIError

fun exn_name :: "exn \<Rightarrow> jsstring" where
  "exn_name (Error m) = js ''Error''"
| "exn_name TypeError = js ''TypeError''"
| "exn_name SyntaxError = js ''SyntaxError''"
| "exn_name (ClientError e) = name e"

text \<open>
  The constructors. \<open>super(message)\<close> reaches the built-in \<open>Error\<close>, which stores the
  conversion of the message to a string, and the empty message for \<open>undefined\<close>; when the
  conversion throws, so does the constructor (\<open>Inl\<close>). A subclass sets its name after
  the constructor of the base class has run.
\<close>

definition new_OpenAIError :: "jsval \<Rightarrow> int option \<Rightarrow> jsval \<Rightarrow> exn + OpenAIError" where
  "new_OpenAIError msg code d =
     (case (if msg = JUndefined then Some [] else ToString msg) of
        None \<Rightarrow> Inl TypeError
      | Some s \<Rightarrow> Inr \<lparr>name = js ''OpenAIError'', message = s, statusCode = code, data = d\<rparr>)"

definition extends :: "jsstring \<Rightarrow> exn + OpenAIError \<Rightarrow> exn + OpenAIError" where
  "extends class_name base =
     (case base of Inl e \<Rightarrow> Inl e | Inr obj \<Rightarrow> Inr (obj\<lparr>name := class_name\<rparr>))"

definition new_AuthenticationError :: "jsval \<Rightarrow> int option \<Rightarrow> jsval \<Rightarrow> exn + OpenAIError" where
  "new_AuthenticationError msg code d = extends (js ''AuthenticationError'') (new_OpenAIError msg code d)"

definition new_ValidationError :: "jsval \<Rightarrow> int option \<Rightarrow> jsval \<Rightarrow> exn + OpenAIError" where
  "new_ValidationError msg code d = extends (js ''ValidationError'') (new_OpenAIError msg code d)"

definition new_RateLimitError :: "jsval \<Rightarrow> int option \<Rightarrow> jsval \<Rightarrow> exn + OpenAIError" where
  "new_RateLimitError msg code d = extends (js ''RateLimitError'') (new_OpenAIError msg code d)"

definition new_APIError :: "jsval \<Rightarrow> int option \<Rightarrow> jsval \<Rightarrow> exn + OpenAIError" where
  "new_APIError msg code d = extends (js ''APIError'') (new_OpenAIError msg code d)"

text \<open>\<open>throw new C(...)\<close>: the instance, or what its constructor threw.\<close>

definition throw_new :: "exn + OpenAIError \<Rightarrow> exn" where
  "throw_new made = (case made of Inl e \<Rightarrow> e | Inr obj \<Rightarrow> ClientError obj)"

section \<open>The streaming decoder\<close>

text \<open>
  \<open>streamAsyncIterable\<close> is an async generator. Its run against a stream that delivers
  finitely many chunks and then ends is described by the items it yields, in order, and
  by the way it completes: by returning, or by throwing. \<open>JSON.parse\<close> belongs to the
  language runtime and is a parameter \<open>parse\<close> of the model: \<open>None\<close> stands for the
  SyntaxError it throws on a text that is not JSON. A chunk is represented by the text
  that \<open>chunk.toString()\<close> gives for it.
\<close>

datatype completion = Returned | Threw exn

text \<open>
  A run that yields the item \<open>parsed\<close> and then goes on as \<open>rest\<close>; a run that yields
  \<open>items\<close> and then goes on as \<open>rest\<close>.
\<close>

definition then_run :: "'j list \<Rightarrow> 'j list \<times> 'c \<Rightarrow> 'j list \<times> 'c" where
  "then_run items rest = (items @ fst rest, snd rest)"

definition yield :: "'j \<Rightarrow> 'j list \<times> 'c \<Rightarrow> 'j list \<times> 'c" where
  "yield parsed rest = (parsed # fst rest, snd rest)"

text \<open>The payload of a trimmed line: \<^verbatim>\<open>trimmed.replace('data: ', '').trim()\<close>.\<close>

definition content_of :: "jsstring \<Rightarrow> jsstring" where
  "content_of trimmed = trim (replace trimmed (js ''data: '') [])"

text \<open>
  The inner loop over the complete lines of one chunk. The second component is \<open>None\<close>
  when the loop ran to its end, and the completion of the whole generator otherwise.
\<close>

fun for_lines :: "(jsstring \<Rightarrow> 'j option) \<Rightarrow> jsstring list \<Rightarrow> 'j list \<times> completion option" where
  "for_lines parse [] = ([], None)"
| "for_lines parse (line # lines) =
     (let trimmed = trim line in
      if startsWith trimmed (js ''data:'') then
        (let content = content_of trimmed in
         if content = js ''[DONE]'' then ([], Some Returned)
         else
           (case parse content of
              None \<Rightarrow> ([], Some (Threw SyntaxError))
            | Some parsed \<Rightarrow> yield parsed (for_lines parse lines)))
      else for_lines parse lines)"

text \<open>
  How the generator completes when the loop over the lines was left in the given way:
  a loop that ran to its end, with no chunk left, lets the generator return.
\<close>

fun finish :: "'j list \<times> completion option \<Rightarrow> 'j list \<times> completion" where
  "finish (items, None) = (items, Returned)"
| "finish (items, Some c) = (items, c)"

text \<open>
  The outer loop over the chunks, with the buffer as the loop's state. When the stream
  ends the generator returns; what is left in the buffer is dropped.
\<close>

fun for_await :: "(jsstring \<Rightarrow> 'j option) \<Rightarrow> jsstring \<Rightarrow> jsstring list \<Rightarrow> 'j list \<times> completion" where
  "for_await parse buffer [] = ([], Returned)"
| "for_await parse buffer (chunk # stream) =
     (let lines = split (buffer @ chunk) LF in
      case for_lines parse (butlast lines) of
        (items, None) \<Rightarrow> then_run items (for_await parse (last lines) stream)
      | (items, Some c) \<Rightarrow> (items, c))"

definition streamAsyncIterable :: "(jsstring \<Rightarrow> 'j option) \<Rightarrow> jsstring list \<Rightarrow> 'j list \<times> completion" where
  "streamAsyncIterable parse stream = for_await parse [] stream"

text \<open>
  What the consumer sees at each call of \<open>next()\<close> (calls are counted from 0): the items,
  one per call; then the completion, once; then, for ever, that the generator is done.
\<close>

datatype 'j IteratorResult = Value 'j | Done | Raise exn

definition pull :: "'j list \<times> completion \<Rightarrow> nat \<Rightarrow> 'j IteratorResult" where
  "pull run n =
     (if n < length (fst run) then Value (fst run ! n)
      else if n = length (fst run) then (case snd run of Returned \<Rightarrow> Done | Threw e \<Rightarrow> Raise e)
      else Done)"

section \<open>The error classifier\<close>

text \<open>
  The error of the HTTP library as \<open>handleError\<close> reads it: its own message, the response
  when one was received (status and body), and whether the request was sent.
\<close>

record AxiosResponse =
  status :: int
  response_data :: jsval

record AxiosError =
  error_message :: jsstring
  response :: "AxiosResponse option"
  request :: bool

text \<open>\<open>handleError\<close> never returns: the value of the model is what it throws.\<close>

definition handleError :: "AxiosError \<Rightarrow> exn" where
  "handleError error =
     (case response error of
        Some r \<Rightarrow>
          (let vendor = optional_get (optional_get (response_data r) (js ''error'')) (js ''message'');
               msg = (if truthy vendor then vendor else JStr (error_message error))
           in if status r = 400 then
                throw_new (new_ValidationError msg (Some (status r)) (response_data r))
              else if status r = 401 then
                throw_new (new_AuthenticationError msg (Some (status r)) (response_data r))
              else if status r = 429 then
                throw_new (new_RateLimitError msg (Some (status r)) (response_data r))
              else throw_new (new_APIError msg (Some (status r)) (response_data r)))
      | None \<Rightarrow>
          (if request error then
             throw_new (new_OpenAIError (JStr (js ''Network error: '' @ error_message error)) None JUndefined)
           else
             throw_new (new_OpenAIError (JStr (js ''Error: '' @ error_message error)) None JUndefined)))"

section \<open>The conversation context\<close>

text \<open>
  The client's state, as far as the context operations go: the field \<open>context\<close>, written
  \<open>this_context\<close> here. A method gives back the exception it threw, if any, and the
  client after the call.
\<close>

record OpenAIClient =
  this_context :: "jsval list"

definition entry_message :: jsstring where
  \<open>entry_message =
     js ''Context entry must be an object with role ("system", "user", or "assistant") and content properties''\<close>


text \<open>
  The shape that the interface \<open>ContextEntry\<close> (types.ts) declares: an object whose \<open>role\<close>
  is one of the three role names and whose \<open>content\<close> is a string.
\<close>

fun ContextEntry :: "jsval \<Rightarrow> bool" where
  "ContextEntry (JObj ps) \<longleftrightarrow>
     get (JObj ps) (js ''role'') \<in>
       set [JStr (js ''system''), JStr (js ''user''), JStr (js ''assistant'')] \<and>
     typeof (get (JObj ps) (js ''content'')) = js ''string''"
| "ContextEntry v \<longleftrightarrow> False"

text \<open>
  The three conjuncts of the check are evaluated in order. \<open>typeof null\<close> is \<open>'object'\<close>,
  so for \<open>null\<close> the second conjunct is evaluated, and the read of \<open>null.role\<close> throws a
  TypeError; nothing has been pushed then.
\<close>

definition addToContext :: "OpenAIClient \<Rightarrow> jsval \<Rightarrow> exn option \<times> OpenAIClient" where
  "addToContext this contextEntry =
     (if typeof contextEntry = js ''object'' then
        (if contextEntry = JNull then (Some TypeError, this)
         else if get contextEntry (js ''role'') \<in>
                   set [JStr (js ''system''), JStr (js ''user''), JStr (js ''assistant'')] \<and>
                 typeof (get contextEntry (js ''content'')) = js ''string''
         then (None, this\<lparr>this_context := this_context this @ [contextEntry]\<rparr>)
         else (Some (Error entry_message), this))
      else (Some (Error entry_message), this))"





text \<open>
  \<open>getContext\<close> returns the array itself; its value here is the content of the array
  at the time of the call.
\<close>

definition getContext :: "OpenAIClient \<Rightarrow> jsval list" where
  "getContext this = this_context this"

definition clearContext :: "OpenAIClient \<Rightarrow> OpenAIClient" where
  "clearContext this = this\<lparr>this_context := []\<rparr>"

section \<open>Chat completions\<close>

text \<open>
  The options of a chat request: the fields the method reads, and the others in the
  record's extension. The method hands a payload to the HTTP library; the model gives
  the call it makes (through \<open>client.post\<close> when streaming, through \<open>request\<close> otherwise)
  and the client after the call.
\<close>

record CreateChatCompletionOptions =
  model :: jsstring
  messages :: "jsval list"
  stream :: bool

datatype 'p transport_call =
    Post jsstring 'p
  | Request jsstring jsstring 'p

fun payload_of :: "'p transport_call \<Rightarrow> 'p" where
  "payload_of (Post endpoint payload) = payload"
| "payload_of (Request method endpoint payload) = payload"

definition createChatCompletion ::
  "OpenAIClient \<Rightarrow> 'a CreateChatCompletionOptions_scheme \<Rightarrow>
   'a CreateChatCompletionOptions_scheme transport_call \<times> OpenAIClient" where
  "createChatCompletion this options =
     (let msgs = this_context this @ messages options;
          payload = options\<lparr>messages := msgs\<rparr>
      in if stream options then (Post (js ''/chat/completions'') payload, this)
         else (Request (js ''POST'') (js ''/chat/completions'') payload, this))"

section \<open>Decoding a chunk of bytes\<close>

text \<open>
  \<open>chunk.toString()\<close> on a chunk of bytes decodes it as UTF-8, each chunk by itself. The
  decoder is the one of the Encoding Standard: a byte that cannot continue the sequence
  under way ends it with U+FFFD and is looked at again; a sequence cut off by the end of
  the input gives U+FFFD. The state is the code point so far, the number of bytes needed
  and seen, and the bounds for the next byte.
\<close>

function utf8_decode ::
  "nat \<Rightarrow> nat \<Rightarrow> nat \<Rightarrow> 8 word \<Rightarrow> 8 word \<Rightarrow> 8 word list \<Rightarrow> nat list" where
  "utf8_decode cp needed seen lower upper [] = (if needed \<noteq> 0 then [0xFFFD] else [])"
| "utf8_decode cp needed seen lower upper (b # bs) =
     (if needed = 0 then
        (if b \<le> 0x7F then unat b # utf8_decode 0 0 0 0x80 0xBF bs
         else if 0xC2 \<le> b \<and> b \<le> 0xDF then
           utf8_decode (unat (b AND 0x1F)) 1 0 0x80 0xBF bs
         else if 0xE0 \<le> b \<and> b \<le> 0xEF then
           utf8_decode (unat (b AND 0x0F)) 2 0
             (if b = 0xE0 then 0xA0 else 0x80) (if b = 0xED then 0x9F else 0xBF) bs
         else if 0xF0 \<le> b \<and> b \<le> 0xF4 then
           utf8_decode (unat (b AND 0x07)) 3 0
             (if b = 0xF0 then 0x90 else 0x80) (if b = 0xF4 then 0x8F else 0xBF) bs
         else 0xFFFD # utf8_decode 0 0 0 0x80 0xBF bs)
      else if b < lower \<or> upper < b then
        0xFFFD # utf8_decode 0 0 0 0x80 0xBF (b # bs)
      else if Suc seen = needed then
        (cp * 64 + unat (b AND 0x3F)) # utf8_decode 0 0 0 0x80 0xBF bs
      else utf8_decode (cp * 64 + unat (b AND 0x3F)) needed (Suc seen) 0x80 0xBF bs)"
  by pat_completeness auto
termination
  by (relation "measure (\<lambda>(cp, needed, seen, lower, upper, bs).
        2 * length bs + (if needed = 0 then 0 else 1))") auto

text \<open>A code point as UTF-16 code units: itself, or a surrogate pair above U+FFFF.\<close>

definition utf16 :: "nat \<Rightarrow> jsstring" where
  "utf16 cp =
     (if cp < 0x10000 then [of_nat cp]
      else [of_nat (0xD800 + (cp - 0x10000) div 0x400), of_nat (0xDC00 + (cp - 0x10000) mod 0x400)])"

definition ascii :: "string \<Rightarrow> 8 word list" where
  "ascii s = map of_char s"

definition toString :: "8 word list \<Rightarrow> jsstring" where
  "toString chunk = concat (map utf16 (utf8_decode 0 0 0 0x80 0xBF chunk))"

text \<open>
  A parser that agrees with \<open>JSON.parse\<close> on the texts of the examples below: it knows the
  two objects, and the other texts given to it there are not JSON.
\<close>

definition sample_parse :: "jsstring \<Rightarrow> jsval option" where
  \<open>sample_parse text =
     (if text = js ''{"a":1}'' then Some (JObj [(js ''a'', JNum 1)])
      else if text = js ''{"b":2}'' then Some (JObj [(js ''b'', JNum 2)])
      else None)\<close>

section \<open>Lines and chunks\<close>

lemma split_not_Nil: "split s sep \<noteq> []"
  by (induction s) (auto simp: neq_Nil_conv elim: cons_first.elims)

lemma split_no_sep: "sep \<notin> set s \<Longrightarrow> split s sep = [s]"
  by (induction s) auto

lemma last_split_no_sep: "sep \<notin> set (last (split s sep))"
proof (induction s)
  case Nil
  then show ?case by simp
next
  case (Cons c cs)
  show ?case
  proof (cases "split cs sep")
    case Nil
    then show ?thesis using split_not_Nil by blast
  next
    case (Cons p ps)
    with Cons.IH show ?thesis by (cases ps) auto
  qed
qed

text \<open>
  Splitting a text that arrives in two parts: the complete lines of the first part, then
  the split of what the first part left over followed by the second part.
\<close>

lemma split_append:
  "split (a @ b) sep = butlast (split a sep) @ split (last (split a sep) @ b) sep"
proof (induction a)
  case Nil
  then show ?case by simp
next
  case (Cons c cs)
  obtain p ps where sp: "split cs sep = p # ps"
    using split_not_Nil by (cases "split cs sep") auto
  show ?case
  proof (cases "c = sep")
    case True
    with Cons sp show ?thesis by simp
  next
    case False
    show ?thesis
    proof (cases ps)
      case Nil
      with False Cons sp show ?thesis by simp
    next
      case (Cons q qs)
      with False Cons.IH sp show ?thesis by simp
    qed
  qed
qed

lemma for_lines_append:
  "for_lines parse (xs @ ys) =
     (case for_lines parse xs of
        (items, None) \<Rightarrow> then_run items (for_lines parse ys)
      | (items, Some c) \<Rightarrow> (items, Some c))"
  by (induction xs) (auto simp: Let_def then_run_def yield_def split: option.splits prod.splits)

lemma finish_then_run: "finish (then_run items r) = then_run items (finish r)"
  by (cases r; cases "snd r") (auto simp: then_run_def)

text \<open>
  The run of the generator is a function of the text that the chunks make up together:
  the loop over the lines, run once over all the complete lines of that text.
\<close>

lemma for_await_concat:
  "LF \<notin> set buffer \<Longrightarrow>
   for_await parse buffer chunks =
     finish (for_lines parse (butlast (split (buffer @ concat chunks) LF)))"
proof (induction chunks arbitrary: buffer)
  case Nil
  then show ?case by (simp add: split_no_sep)
next
  case (Cons chunk chunks)
  let ?lines = "split (buffer @ chunk) LF"
  have nosep: "LF \<notin> set (last ?lines)" by (rule last_split_no_sep)
  have sp: "split (buffer @ concat (chunk # chunks)) LF =
      butlast ?lines @ split (last ?lines @ concat chunks) LF"
    using split_append [of "buffer @ chunk" "concat chunks" LF] by simp
  have bl: "butlast (split (buffer @ concat (chunk # chunks)) LF) =
      butlast ?lines @ butlast (split (last ?lines @ concat chunks) LF)"
    unfolding sp by (simp add: butlast_append split_not_Nil)
  show ?case
    unfolding bl for_lines_append
    by (auto simp: Let_def Cons.IH [OF nosep] finish_then_run split: prod.splits option.splits)
qed

lemma streamAsyncIterable_concat:
  "streamAsyncIterable parse chunks =
     finish (for_lines parse (butlast (split (concat chunks) LF)))"
  unfolding streamAsyncIterable_def using for_await_concat [of "[]" parse chunks] by simp

text \<open>
  So the run does not depend on where the text is cut into chunks: two streams whose
  chunks make up the same text give the same run.
\<close>

lemma chunking_of_text_irrelevant:
  "concat xs = concat ys \<Longrightarrow> streamAsyncIterable parse xs = streamAsyncIterable parse ys"
  by (simp add: streamAsyncIterable_concat)

lemma for_lines_stops:
  assumes "for_lines parse before = (items, None)"
    and "for_lines parse [line] = ([], Some c)"
  shows "for_lines parse (before @ line # after) = (items, Some c)"
proof -
  have "for_lines parse (line # after) = ([], Some c)"
    using assms(2) by (auto simp: Let_def yield_def split: if_splits option.splits)
  then show ?thesis
    using assms(1) for_lines_append [of parse before "line # after"]
    by (simp add: then_run_def)
qed

lemmas js_eval = js_def LF_def trim_def isWhiteSpace_def startsWith_def content_of_def
  yield_def then_run_def

section \<open>The payload of a line\<close>

lemma replace_leading:
  "startsWith t p \<Longrightarrow> p \<noteq> [] \<Longrightarrow> replace t p r = r @ drop (length p) t"
  by (cases t) (auto simp: startsWith_def)

lemma trim_keeps_prefix:
  assumes "p \<noteq> []" and "\<not> isWhiteSpace (hd p)" and "\<not> isWhiteSpace (last p)"
  shows "startsWith (trim (p @ x)) p"
proof -
  have front: "dropWhile isWhiteSpace (p @ x) = p @ x"
    using assms(1,2) by (cases p) auto
  have "\<exists>y. dropWhile isWhiteSpace (rev x @ rev p) = y @ rev p"
  proof (cases "\<forall>c\<in>set (rev x). isWhiteSpace c")
    case True
    then have "dropWhile isWhiteSpace (rev x @ rev p) = dropWhile isWhiteSpace (rev p)"
      by (intro dropWhile_append2) auto
    also have "\<dots> = rev p"
      using assms(1,3) by (cases "rev p") (auto simp: last_rev hd_rev dest: arg_cong [where f = hd])
    finally show ?thesis by (intro exI [of _ "[]"]) simp
  next
    case False
    then obtain c where "c \<in> set (rev x)" "\<not> isWhiteSpace c" by blast
    then have "dropWhile isWhiteSpace (rev x @ rev p) = dropWhile isWhiteSpace (rev x) @ rev p"
      by (intro dropWhile_append1) auto
    then show ?thesis by blast
  qed
  then obtain y where "dropWhile isWhiteSpace (rev x @ rev p) = y @ rev p" by blast
  then have "trim (p @ x) = p @ rev y"
    by (simp add: trim_def front)
  then show ?thesis by (simp add: startsWith_def)
qed

lemma startsWith_append: "startsWith t p \<Longrightarrow> t = p @ drop (length p) t"
  unfolding startsWith_def by (metis append_take_drop_id)

lemma replace_keeps_data_prefix:
  assumes "startsWith t (js ''data:'')" and "\<not> startsWith t (js ''data: '')"
  shows "replace t (js ''data: '') [] = js ''data:'' @ replace (drop 5 t) (js ''data: '') []"
proof -
  have len: "length (js ''data:'') = 5" by (simp add: js_def)
  have t: "t = js ''data:'' @ drop 5 t"
    using startsWith_append [OF assms(1)] unfolding len .
  have "replace (js ''data:'' @ drop 5 t) (js ''data: '') [] =
      js ''data:'' @ replace (drop 5 t) (js ''data: '') []"
    using assms(2) unfolding startsWith_def
    by (subst (asm) t) (simp add: js_def startsWith_def)
  with t show ?thesis by simp
qed

lemma startsWith_data_space:
  assumes "startsWith t (js ''data: '')"
  shows "startsWith t (js ''data:'')"
proof -
  obtain x where "t = js ''data: '' @ x"
    using startsWith_append [OF assms] by blast
  then show ?thesis
    by (simp add: startsWith_def js_def)
qed

section \<open>Accepted and rejected entries\<close>

lemma ContextEntry_accepted:
  "ContextEntry e \<Longrightarrow> addToContext this e = (None, this\<lparr>this_context := this_context this @ [e]\<rparr>)"
  by (cases e) (auto simp: addToContext_def js_def)

lemma not_ContextEntry_rejected:
  "\<not> ContextEntry e \<Longrightarrow> e \<noteq> JNull \<Longrightarrow> addToContext this e = (Some (Error entry_message), this)"
  by (cases e) (auto simp: addToContext_def js_def)








section \<open>What the classifier throws\<close>


lemmas new_error_defs = new_OpenAIError_def new_ValidationError_def new_AuthenticationError_def
  new_RateLimitError_def new_APIError_def extends_def throw_new_def


text \<open>
  A message that is truthy and has no conversion to a string: the constructor, and so
  the classifier, throws the TypeError of the conversion.
\<close>

lemma handleError_unconvertible_message:
  "handleError \<lparr>error_message = js ''Request failed with status code 400'',
      response = Some \<lparr>status = 400,
        response_data = JObj [(js ''error'', JObj [(js ''message'', JObj [(js ''toString'', JNum 1)])])]\<rparr>,
      request = True\<rparr> = TypeError"
  by (simp add: handleError_def optional_get_def new_error_defs js_def)
section \<open>Claims about the streaming decoder\<close>

text \<open>
  C1: when the text \<^verbatim>\<open>data: {"a":1}\n\ndata: {"b":2}\n\ndata: [DONE]\n\<close> is delivered to
  the streaming decoder, in one chunk or in chunks that make up that text, the decoder yields
  exactly two items, the parsed \<^verbatim>\<open>{"a":1}\<close> and then the parsed \<^verbatim>\<open>{"b":2}\<close>, and then
  returns: the first two calls of \<open>next()\<close> give the two items and every later call says
  that the sequence is done.
\<close>

theorem stream_two_items_then_done:
  assumes \<open>concat chunks = js ''data: {"a":1}\<newline>\<newline>data: {"b":2}\<newline>\<newline>data: [DONE]\<newline>''\<close>
    and \<open>parse (js ''{"a":1}'') = Some a\<close>
    and \<open>parse (js ''{"b":2}'') = Some b\<close>
  shows "streamAsyncIterable parse chunks = ([a, b], Returned) \<and>
         pull (streamAsyncIterable parse chunks) 0 = Value a \<and>
         pull (streamAsyncIterable parse chunks) 1 = Value b \<and>
         pull (streamAsyncIterable parse chunks) (2 + n) = Done"
proof -
  have lines: \<open>butlast (split (concat chunks) LF) =
      [js ''data: {"a":1}'', [], js ''data: {"b":2}'', [], js ''data: [DONE]'']\<close>
    unfolding assms(1) by (simp add: js_def LF_def)
  have c1: \<open>content_of (trim (js ''data: {"a":1}'')) = js ''{"a":1}''\<close>
    by (simp add: js_eval)
  have c2: \<open>content_of (trim (js ''data: {"b":2}'')) = js ''{"b":2}''\<close>
    by (simp add: js_eval)
  have c3: \<open>content_of (trim (js ''data: [DONE]'')) = js ''[DONE]''\<close>
    by (simp add: js_eval)
  have s1: \<open>startsWith (trim (js ''data: {"a":1}'')) (js ''data:'')\<close>
    by (simp add: js_eval)
  have s2: \<open>startsWith (trim (js ''data: {"b":2}'')) (js ''data:'')\<close>
    by (simp add: js_eval)
  have s3: \<open>startsWith (trim (js ''data: [DONE]'')) (js ''data:'')\<close>
    by (simp add: js_eval)
  have s0: \<open>\<not> startsWith (trim []) (js ''data:'')\<close>
    by (simp add: js_eval)
  have ne1: \<open>js ''{"a":1}'' \<noteq> js ''[DONE]''\<close> by (simp add: js_def)
  have ne2: \<open>js ''{"b":2}'' \<noteq> js ''[DONE]''\<close> by (simp add: js_def)
  have run: "streamAsyncIterable parse chunks = ([a, b], Returned)"
    unfolding streamAsyncIterable_concat lines
    by (simp add: Let_def c1 c2 c3 s1 s2 s3 s0 ne1 ne2 assms(2,3) yield_def)
  show ?thesis
    unfolding run by (simp add: pull_def)
qed

text \<open>The bytes of that text, delivered in one chunk.\<close>

theorem stream_two_items_then_done_witness:
  \<open>streamAsyncIterable sample_parse
     (map toString [ascii ''data: {"a":1}\<newline>\<newline>data: {"b":2}\<newline>\<newline>data: [DONE]\<newline>''])
     = ([JObj [(js ''a'', JNum 1)], JObj [(js ''b'', JNum 2)]], Returned) \<and>
   pull (streamAsyncIterable sample_parse
     (map toString [ascii ''data: {"a":1}\<newline>\<newline>data: {"b":2}\<newline>\<newline>data: [DONE]\<newline>''])) 0
     = Value (JObj [(js ''a'', JNum 1)]) \<and>
   pull (streamAsyncIterable sample_parse
     (map toString [ascii ''data: {"a":1}\<newline>\<newline>data: {"b":2}\<newline>\<newline>data: [DONE]\<newline>''])) 1
     = Value (JObj [(js ''b'', JNum 2)]) \<and>
   pull (streamAsyncIterable sample_parse
     (map toString [ascii ''data: {"a":1}\<newline>\<newline>data: {"b":2}\<newline>\<newline>data: [DONE]\<newline>''])) (2 + 0)
     = Done\<close>
proof -
  have h1: \<open>concat (map toString [ascii ''data: {"a":1}\<newline>\<newline>data: {"b":2}\<newline>\<newline>data: [DONE]\<newline>'']) =
     js ''data: {"a":1}\<newline>\<newline>data: {"b":2}\<newline>\<newline>data: [DONE]\<newline>''\<close>
    by (simp add: toString_def utf16_def ascii_def js_def)
  have h2: \<open>sample_parse (js ''{"a":1}'') = Some (JObj [(js ''a'', JNum 1)])\<close>
    by (simp add: sample_parse_def)
  have h3: \<open>sample_parse (js ''{"b":2}'') = Some (JObj [(js ''b'', JNum 2)])\<close>
    by (simp add: sample_parse_def js_def)
  show ?thesis
    by (rule stream_two_items_then_done [OF h1 h2 h3])
qed

text \<open>
  C2: the decoder should yield the same items however the bytes of the stream are cut
  into chunks. For the text that the chunks carry this holds (\<open>chunking_of_text_irrelevant\<close>
  above), and a line cut anywhere between two characters is put together again. For the
  bytes it fails, since each chunk is decoded by itself: the bytes of the line
  \<^verbatim>\<open>data: "e"\<close>, with \<open>e\<close> standing for the letter U+00E9 (the bytes C3 A9), cut between
  those two bytes, give an item with two replacement characters; in one chunk they give
  the item with the letter. (The parser is \<open>Some\<close> here, to show the payload that is
  handed to it.)
\<close>

theorem split_character_changes_item:
  \<open>streamAsyncIterable Some (map toString [ascii ''data: "'' @ [0xC3], [0xA9] @ ascii ''"\<newline>''])
     = ([js ''"'' @ [0xFFFD, 0xFFFD] @ js ''"''], Returned) \<and>
   streamAsyncIterable Some (map toString [ascii ''data: "'' @ [0xC3] @ [0xA9] @ ascii ''"\<newline>''])
     = ([js ''"'' @ [0xE9] @ js ''"''], Returned)\<close>
proof -
  have t1: \<open>toString (ascii ''data: "'' @ [0xC3]) = js ''data: "'' @ [0xFFFD]\<close>
    by (simp add: toString_def utf16_def ascii_def js_def)
  have t2: \<open>toString ([0xA9] @ ascii ''"\<newline>'') = [0xFFFD] @ js ''"\<newline>''\<close>
    by (simp add: toString_def utf16_def ascii_def js_def)
  have t3: \<open>toString (ascii ''data: "'' @ [0xC3] @ [0xA9] @ ascii ''"\<newline>'') =
      js ''data: "'' @ [0xE9] @ js ''"\<newline>''\<close>
    by (simp add: toString_def utf16_def ascii_def js_def)
  show ?thesis
    unfolding list.map t1 t2 t3 by (simp add: streamAsyncIterable_def js_eval)
qed

text \<open>
  C6: when the payload of a data line is exactly the token \<^verbatim>\<open>[DONE]\<close>, the decoder ends
  the sequence at once. The items are those of the lines before that line; nothing that
  comes after it counts, neither the other complete lines of the same chunk, nor the
  fragment held back in the buffer, nor a later chunk; and every further call of
  \<open>next()\<close> says that the sequence is done.
\<close>

theorem done_ends_stream:
  assumes "startsWith (trim line) (js ''data:'')"
    and "content_of (trim line) = js ''[DONE]''"
    and "butlast (split (concat chunks) LF) = before @ line # after"
    and "for_lines parse before = (items, None)"
  shows "streamAsyncIterable parse chunks = (items, Returned) \<and>
         pull (streamAsyncIterable parse chunks) (length items + n) = Done"
proof -
  have "for_lines parse [line] = ([], Some Returned)"
    using assms(1,2) by (simp add: Let_def)
  then have "for_lines parse (before @ line # after) = (items, Some Returned)"
    using assms(4) by (intro for_lines_stops)
  then have run: "streamAsyncIterable parse chunks = (items, Returned)"
    unfolding streamAsyncIterable_concat assms(3) by simp
  show ?thesis
    unfolding run by (simp add: pull_def)
qed

theorem done_ends_stream_witness:
  \<open>streamAsyncIterable sample_parse
     [js ''data: {"a":1}\<newline>data: [DONE]\<newline>data: {"b":2}\<newline>data: {"a"'', js '':1}\<newline>'']
     = ([JObj [(js ''a'', JNum 1)]], Returned) \<and>
   pull (streamAsyncIterable sample_parse
     [js ''data: {"a":1}\<newline>data: [DONE]\<newline>data: {"b":2}\<newline>data: {"a"'', js '':1}\<newline>''])
     (length [JObj [(js ''a'', JNum 1)]] + 0) = Done\<close>
proof -
  have h1: \<open>startsWith (trim (js ''data: [DONE]'')) (js ''data:'')\<close>
    by (simp add: js_eval)
  have h2: \<open>content_of (trim (js ''data: [DONE]'')) = js ''[DONE]''\<close>
    by (simp add: js_eval)
  have h3: \<open>butlast (split (concat
      [js ''data: {"a":1}\<newline>data: [DONE]\<newline>data: {"b":2}\<newline>data: {"a"'', js '':1}\<newline>'']) LF) =
      [js ''data: {"a":1}''] @ js ''data: [DONE]'' # [js ''data: {"b":2}'', js ''data: {"a":1}'']\<close>
    by (simp add: js_def LF_def)
  have h4: \<open>for_lines sample_parse [js ''data: {"a":1}''] = ([JObj [(js ''a'', JNum 1)]], None)\<close>
    by (simp add: js_eval sample_parse_def)
  show ?thesis
    by (rule done_ends_stream [OF h1 h2 h3 h4])
qed

text \<open>
  C7: when the payload of a data line is not JSON, the decoder throws the parse error
  at the call of \<open>next()\<close> that would have produced that item: the calls before it give
  the items of the earlier lines, that call throws, and the sequence gives nothing
  afterwards, whatever follows the line. For \<^verbatim>\<open>data: {"a":1}\ndata: not-json\n\<close> the first
  call gives the parsed \<^verbatim>\<open>{"a":1}\<close> and the second throws.
\<close>

theorem bad_json_throws_at_its_pull:
  assumes "startsWith (trim line) (js ''data:'')"
    and "content_of (trim line) \<noteq> js ''[DONE]''"
    and "parse (content_of (trim line)) = None"
    and "butlast (split (concat chunks) LF) = before @ line # after"
    and "for_lines parse before = (items, None)"
  shows "streamAsyncIterable parse chunks = (items, Threw SyntaxError) \<and>
         (k < length items \<longrightarrow> pull (streamAsyncIterable parse chunks) k = Value (items ! k)) \<and>
         pull (streamAsyncIterable parse chunks) (length items) = Raise SyntaxError \<and>
         pull (streamAsyncIterable parse chunks) (length items + 1 + n) = Done"
proof -
  have "for_lines parse [line] = ([], Some (Threw SyntaxError))"
    using assms(1,2,3) by (simp add: Let_def)
  then have "for_lines parse (before @ line # after) = (items, Some (Threw SyntaxError))"
    using assms(5) by (intro for_lines_stops)
  then have run: "streamAsyncIterable parse chunks = (items, Threw SyntaxError)"
    unfolding streamAsyncIterable_concat assms(4) by simp
  show ?thesis
    unfolding run by (simp add: pull_def)
qed

theorem bad_json_throws_at_its_pull_witness:
  \<open>streamAsyncIterable sample_parse [js ''data: {"a":1}\<newline>data: not-json\<newline>'']
     = ([JObj [(js ''a'', JNum 1)]], Threw SyntaxError) \<and>
   pull (streamAsyncIterable sample_parse [js ''data: {"a":1}\<newline>data: not-json\<newline>'']) 0
     = Value (JObj [(js ''a'', JNum 1)]) \<and>
   pull (streamAsyncIterable sample_parse [js ''data: {"a":1}\<newline>data: not-json\<newline>'']) 1
     = Raise SyntaxError \<and>
   pull (streamAsyncIterable sample_parse [js ''data: {"a":1}\<newline>data: not-json\<newline>'']) 2
     = Done\<close>
proof -
  have h1: \<open>startsWith (trim (js ''data: not-json'')) (js ''data:'')\<close>
    by (simp add: js_eval)
  have c: \<open>content_of (trim (js ''data: not-json'')) = js ''not-json''\<close>
    by (simp add: js_eval)
  have h2: \<open>content_of (trim (js ''data: not-json'')) \<noteq> js ''[DONE]''\<close>
    unfolding c by (simp add: js_def)
  have h3: \<open>sample_parse (content_of (trim (js ''data: not-json''))) = None\<close>
    unfolding c by (simp add: sample_parse_def js_def)
  have h4: \<open>butlast (split (concat [js ''data: {"a":1}\<newline>data: not-json\<newline>'']) LF) =
      [js ''data: {"a":1}''] @ js ''data: not-json'' # []\<close>
    by (simp add: js_def LF_def)
  have h5: \<open>for_lines sample_parse [js ''data: {"a":1}''] = ([JObj [(js ''a'', JNum 1)]], None)\<close>
    by (simp add: js_eval sample_parse_def)
  have run: \<open>streamAsyncIterable sample_parse [js ''data: {"a":1}\<newline>data: not-json\<newline>'']
      = ([JObj [(js ''a'', JNum 1)]], Threw SyntaxError)\<close>
    using bad_json_throws_at_its_pull [OF h1 h2 h3 h4 h5] by (rule conjunct1)
  show ?thesis
    unfolding run by (simp add: pull_def)
qed

text \<open>
  C8: the decoder strips the literal string \<^verbatim>\<open>data: \<close>, with its one space, and trims
  what is left: for a line that starts with it (once trimmed), the payload is the
  trimmed rest. A line that starts with \<^verbatim>\<open>data:\<close> with no space after it, such as
  \<^verbatim>\<open>data:foo\<close>, is not stripped: the payload handed to the JSON parser still starts with
  \<^verbatim>\<open>data:\<close>.
\<close>

theorem data_prefix_stripped_with_its_space:
  \<open>(startsWith (trim line) (js ''data: '') \<longrightarrow>
      content_of (trim line) = trim (drop 6 (trim line)) \<and>
      for_lines parse [line] =
        (if trim (drop 6 (trim line)) = js ''[DONE]'' then ([], Some Returned)
         else case parse (trim (drop 6 (trim line))) of
           None \<Rightarrow> ([], Some (Threw SyntaxError))
         | Some parsed \<Rightarrow> ([parsed], None))) \<and>
   (startsWith (trim line) (js ''data:'') \<and> \<not> startsWith (trim line) (js ''data: '') \<longrightarrow>
      startsWith (content_of (trim line)) (js ''data:'') \<and>
      for_lines parse [line] =
        (case parse (content_of (trim line)) of
           None \<Rightarrow> ([], Some (Threw SyntaxError))
         | Some parsed \<Rightarrow> ([parsed], None))) \<and>
   content_of (trim (js ''data:foo'')) = js ''data:foo''\<close>
proof (intro conjI impI)
  assume s: "startsWith (trim line) (js ''data: '')"
  moreover have "js ''data: '' \<noteq> []" and len: "length (js ''data: '') = 6"
    by (simp_all add: js_def)
  ultimately have "replace (trim line) (js ''data: '') [] = drop 6 (trim line)"
    using replace_leading [of "trim line" "js ''data: ''" "[]"] by simp
  then show c: "content_of (trim line) = trim (drop 6 (trim line))"
    by (simp add: content_of_def)
  show "for_lines parse [line] =
        (if trim (drop 6 (trim line)) = js ''[DONE]'' then ([], Some Returned)
         else case parse (trim (drop 6 (trim line))) of
           None \<Rightarrow> ([], Some (Threw SyntaxError))
         | Some parsed \<Rightarrow> ([parsed], None))"
    using startsWith_data_space [OF s]
    by (simp add: Let_def c yield_def split: option.splits)
next
  assume a: "startsWith (trim line) (js ''data:'') \<and> \<not> startsWith (trim line) (js ''data: '')"
  then have r: "replace (trim line) (js ''data: '') [] =
      js ''data:'' @ replace (drop 5 (trim line)) (js ''data: '') []"
    by (intro replace_keeps_data_prefix) auto
  show p: "startsWith (content_of (trim line)) (js ''data:'')"
    unfolding content_of_def r
    by (rule trim_keeps_prefix) (simp_all add: js_def isWhiteSpace_def)
  have "content_of (trim line) \<noteq> js ''[DONE]''"
    using p by (auto simp: startsWith_def js_def)
  with a show "for_lines parse [line] =
        (case parse (content_of (trim line)) of
           None \<Rightarrow> ([], Some (Threw SyntaxError))
         | Some parsed \<Rightarrow> ([parsed], None))"
    by (simp add: Let_def yield_def split: option.splits)
next
  show "content_of (trim (js ''data:foo'')) = js ''data:foo''"
    by (simp add: js_eval)
qed

theorem data_prefix_stripped_with_its_space_witness:
  \<open>startsWith (trim (js ''  data: {"a":1} '')) (js ''data: '') \<and>
   content_of (trim (js ''  data: {"a":1} '')) = js ''{"a":1}'' \<and>
   for_lines sample_parse [js ''  data: {"a":1} ''] = ([JObj [(js ''a'', JNum 1)]], None) \<and>
   startsWith (trim (js ''data:foo'')) (js ''data:'') \<and>
   \<not> startsWith (trim (js ''data:foo'')) (js ''data: '') \<and>
   startsWith (content_of (trim (js ''data:foo''))) (js ''data:'') \<and>
   for_lines sample_parse [js ''data:foo''] = ([], Some (Threw SyntaxError))\<close>
proof -
  note A = data_prefix_stripped_with_its_space [of \<open>js ''  data: {"a":1} ''\<close> sample_parse]
  note B = data_prefix_stripped_with_its_space [of \<open>js ''data:foo''\<close> sample_parse]
  have h1: \<open>startsWith (trim (js ''  data: {"a":1} '')) (js ''data: '')\<close>
    by (simp add: js_eval)
  have h2: \<open>startsWith (trim (js ''data:foo'')) (js ''data:'')\<close>
    by (simp add: js_eval)
  have h3: \<open>\<not> startsWith (trim (js ''data:foo'')) (js ''data: '')\<close>
    by (simp add: js_eval)
  have t: \<open>trim (drop 6 (trim (js ''  data: {"a":1} ''))) = js ''{"a":1}''\<close>
    by (simp add: js_eval)
  have ne: \<open>js ''{"a":1}'' \<noteq> js ''[DONE]''\<close>
    by (simp add: js_def)
  have q: \<open>sample_parse (js ''{"a":1}'') = Some (JObj [(js ''a'', JNum 1)])\<close>
    by (simp add: sample_parse_def)
  have p: \<open>sample_parse (js ''data:foo'') = None\<close>
    by (simp add: sample_parse_def js_def)
  from A h1 have a: \<open>content_of (trim (js ''  data: {"a":1} '')) =
      trim (drop 6 (trim (js ''  data: {"a":1} '')))\<close>
    by blast
  from A h1 have a2: \<open>for_lines sample_parse [js ''  data: {"a":1} ''] =
        (if trim (drop 6 (trim (js ''  data: {"a":1} ''))) = js ''[DONE]'' then ([], Some Returned)
         else case sample_parse (trim (drop 6 (trim (js ''  data: {"a":1} '')))) of
           None \<Rightarrow> ([], Some (Threw SyntaxError))
         | Some parsed \<Rightarrow> ([parsed], None))\<close>
    by blast
  have a3: \<open>for_lines sample_parse [js ''  data: {"a":1} ''] = ([JObj [(js ''a'', JNum 1)]], None)\<close>
    unfolding a2 t using ne q by simp
  from B h2 h3 have b1: \<open>startsWith (content_of (trim (js ''data:foo''))) (js ''data:'')\<close>
    by blast
  from B h2 h3 have b2: \<open>for_lines sample_parse [js ''data:foo''] =
      (case sample_parse (content_of (trim (js ''data:foo''))) of
         None \<Rightarrow> ([], Some (Threw SyntaxError))
       | Some parsed \<Rightarrow> ([parsed], None))\<close>
    by blast
  from B have c: \<open>content_of (trim (js ''data:foo'')) = js ''data:foo''\<close>
    by blast
  have b3: \<open>for_lines sample_parse [js ''data:foo''] = ([], Some (Threw SyntaxError))\<close>
    unfolding b2 c p by simp
  show ?thesis
    using h1 a [unfolded t] a3 h2 h3 b1 b3 by (intro conjI)
qed

section \<open>Claims about the error classifier\<close>




section \<open>Claims about the conversation context\<close>

text \<open>
  C4 as the specification states it: an entry with a role outside the three names is
  rejected with a fault of the ValidationError kind. \<open>addToContext\<close> throws a plain
  \<open>Error\<close>, as its documentation says; the class ValidationError is thrown by the error
  classifier only.
\<close>

theorem invalid_entry_throws_plain_error:
  "addToContext \<lparr>this_context = []\<rparr>
     (JObj [(js ''role'', JStr (js ''invalid'')), (js ''content'', JStr (js ''This should fail.''))])
     = (Some (Error entry_message), \<lparr>this_context = []\<rparr>) \<and>
   exn_name (Error entry_message) = js ''Error'' \<and>
   exn_name (Error entry_message) \<noteq> js ''ValidationError''"
  by (simp add: addToContext_def js_def)

text \<open>
  C4, amended: for every entry other than \<open>null\<close> whose role is outside system, user and
  assistant, or whose content is not a string, \<open>addToContext\<close> throws a plain \<open>Error\<close> with
  the message \<^verbatim>\<open>Context entry must be an object with role ("system", "user", or
  "assistant") and content properties\<close> and leaves the client, and so the context that
  \<open>getContext\<close> returns, as it was.
\<close>

theorem invalid_entry_rejected_unchanged:
  assumes "e \<noteq> JNull"
    and "get e (js ''role'') \<notin> {JStr (js ''system''), JStr (js ''user''), JStr (js ''assistant'')} \<or>
         typeof (get e (js ''content'')) \<noteq> js ''string''"
  shows \<open>fst (addToContext this e) = Some (Error (js
           ''Context entry must be an object with role ("system", "user", or "assistant") and content properties'')) \<and>
         snd (addToContext this e) = this \<and>
         getContext (snd (addToContext this e)) = getContext this\<close>
proof -
  have "\<not> ContextEntry e"
    using assms(2) by (cases e) auto
  then have "addToContext this e = (Some (Error entry_message), this)"
    using assms(1) by (rule not_ContextEntry_rejected)
  then show ?thesis
    by (simp add: entry_message_def)
qed

theorem invalid_entry_rejected_unchanged_witness:
  \<open>fst (addToContext \<lparr>this_context = [JStr (js ''earlier'')]\<rparr>
      (JObj [(js ''role'', JStr (js ''invalid'')), (js ''content'', JStr (js ''This should fail.''))])) =
     Some (Error (js
       ''Context entry must be an object with role ("system", "user", or "assistant") and content properties'')) \<and>
   snd (addToContext \<lparr>this_context = [JStr (js ''earlier'')]\<rparr>
      (JObj [(js ''role'', JStr (js ''invalid'')), (js ''content'', JStr (js ''This should fail.''))])) =
     \<lparr>this_context = [JStr (js ''earlier'')]\<rparr> \<and>
   getContext (snd (addToContext \<lparr>this_context = [JStr (js ''earlier'')]\<rparr>
      (JObj [(js ''role'', JStr (js ''invalid'')), (js ''content'', JStr (js ''This should fail.''))]))) =
     getContext \<lparr>this_context = [JStr (js ''earlier'')]\<rparr>\<close>
proof -
  have h1: "JObj [(js ''role'', JStr (js ''invalid'')), (js ''content'', JStr (js ''This should fail.''))] \<noteq> JNull"
    by simp
  have h2: "get (JObj [(js ''role'', JStr (js ''invalid'')), (js ''content'', JStr (js ''This should fail.''))])
        (js ''role'') \<notin> {JStr (js ''system''), JStr (js ''user''), JStr (js ''assistant'')} \<or>
      typeof (get (JObj [(js ''role'', JStr (js ''invalid'')), (js ''content'', JStr (js ''This should fail.''))])
        (js ''content'')) \<noteq> js ''string''"
    by (simp add: js_def)
  show ?thesis
    by (rule invalid_entry_rejected_unchanged [OF h1 h2])
qed



text \<open>
  C9: for every valid entry, with a role among system, user and assistant and a string
  as content, \<open>addToContext\<close> returns without throwing; the context that \<open>getContext\<close>
  returns is the one before with the entry added at its end, so it is longer by
  exactly one and the earlier entries keep their order.
\<close>

theorem valid_entry_is_appended:
  assumes "get e (js ''role'') \<in> {JStr (js ''system''), JStr (js ''user''), JStr (js ''assistant'')}"
    and "get e (js ''content'') = JStr text"
  shows "fst (addToContext this e) = None \<and>
         getContext (snd (addToContext this e)) = getContext this @ [e] \<and>
         length (getContext (snd (addToContext this e))) = length (getContext this) + 1"
proof -
  obtain ps where e: "e = JObj ps"
    using assms(1) by (cases e) auto
  have "ContextEntry e"
    using assms unfolding e by (auto simp: js_def)
  then show ?thesis
    by (simp add: ContextEntry_accepted getContext_def)
qed

theorem valid_entry_is_appended_witness:
  "fst (addToContext \<lparr>this_context = [JStr (js ''earlier'')]\<rparr>
      (JObj [(js ''role'', JStr (js ''user'')), (js ''content'', JStr (js ''Hello, assistant!''))])) = None \<and>
   getContext (snd (addToContext \<lparr>this_context = [JStr (js ''earlier'')]\<rparr>
      (JObj [(js ''role'', JStr (js ''user'')), (js ''content'', JStr (js ''Hello, assistant!''))]))) =
     getContext \<lparr>this_context = [JStr (js ''earlier'')]\<rparr> @
       [JObj [(js ''role'', JStr (js ''user'')), (js ''content'', JStr (js ''Hello, assistant!''))]] \<and>
   length (getContext (snd (addToContext \<lparr>this_context = [JStr (js ''earlier'')]\<rparr>
      (JObj [(js ''role'', JStr (js ''user'')), (js ''content'', JStr (js ''Hello, assistant!''))])))) =
     length (getContext \<lparr>this_context = [JStr (js ''earlier'')]\<rparr>) + 1"
proof -
  have h1: "get (JObj [(js ''role'', JStr (js ''user'')), (js ''content'', JStr (js ''Hello, assistant!''))])
      (js ''role'') \<in> {JStr (js ''system''), JStr (js ''user''), JStr (js ''assistant'')}"
    by (simp add: js_def)
  have h2: "get (JObj [(js ''role'', JStr (js ''user'')), (js ''content'', JStr (js ''Hello, assistant!''))])
      (js ''content'') = JStr (js ''Hello, assistant!'')"
    by (simp add: js_def)
  show ?thesis
    by (rule valid_entry_is_appended [OF h1 h2])
qed

section \<open>Claims about chat completions\<close>

text \<open>
  C10: for every client and every chat request, the messages of the payload that
  \<open>createChatCompletion\<close> sends are the entries of the context, in order, followed by the
  caller's messages, in order; the other options are passed on as they are; and the
  client, and so its context, is the same after the payload has been built.
\<close>

theorem chat_payload_is_context_then_messages:
  "messages (payload_of (fst (createChatCompletion this options))) =
     getContext this @ messages options \<and>
   model (payload_of (fst (createChatCompletion this options))) = model options \<and>
   stream (payload_of (fst (createChatCompletion this options))) = stream options \<and>
   CreateChatCompletionOptions.more (payload_of (fst (createChatCompletion this options))) =
     CreateChatCompletionOptions.more options \<and>
   snd (createChatCompletion this options) = this \<and>
   getContext (snd (createChatCompletion this options)) = getContext this"
  by (simp add: createChatCompletion_def Let_def getContext_def)

end
